theory Spec2Isabelle
  imports Complex_Main
begin

section \<open>Conventions\<close>

text \<open>
  The components are React function components written in TypeScript.  Each
  \<^verbatim>\<open>useState\<close> cell and each \<^verbatim>\<open>useRef\<close> cell becomes a field of a record, and each
  event handler becomes a function from the record to the updated record.  All
  setters called by one handler are applied together, as React batches them.

  JavaScript numbers are modelled as exact reals: rounding of IEEE doubles is
  not part of the model.  A DOM reference that may be \<^verbatim>\<open>null\<close> is an \<open>option\<close>.
\<close>

section \<open>NavBar: static configuration\<close>

datatype PrimaryNavItemId = Men | Women | Explore | Sustainability | Help

text \<open>An entry of the navigation: \<^verbatim>\<open>columns\<close> is optional and is kept as the list
  of its column headings; links and image tiles are static content that no
  handler or render guard reads, so they are left out.\<close>

record PrimaryNavItem =
  nav_id :: PrimaryNavItemId
  nav_label :: string
  hasMegaMenu :: bool
  nav_columns :: "string list option"

definition NAV_ITEMS :: "PrimaryNavItem list" where
  "NAV_ITEMS =
     [\<lparr>nav_id = Men, nav_label = ''Men'', hasMegaMenu = True,
        nav_columns = Some [''Shop by type'', ''Shop by category'', ''Shop by season'']\<rparr>,
      \<lparr>nav_id = Women, nav_label = ''Women'', hasMegaMenu = True,
        nav_columns = Some [''Shop by type'', ''Shop by category'', ''Shop by season'']\<rparr>,
      \<lparr>nav_id = Explore, nav_label = ''Explore'', hasMegaMenu = True,
        nav_columns = Some [''About'', ''Stores'', ''News'']\<rparr>,
      \<lparr>nav_id = Sustainability, nav_label = ''Sustainability'', hasMegaMenu = False,
        nav_columns = None\<rparr>,
      \<lparr>nav_id = Help, nav_label = ''Help'', hasMegaMenu = True,
        nav_columns = Some [''Customer Service'']\<rparr>]"

section \<open>NavBar: measurements and styles\<close>

text \<open>The fields of a \<^verbatim>\<open>DOMRect\<close> that the header reads.\<close>

record DOMRect =
  rect_left :: real
  rect_top :: real
  rect_width :: real
  rect_bottom :: real

text \<open>The inline style object handed to the search bar.\<close>

record CSSProperties =
  css_position :: string
  css_left :: real
  css_top :: real
  css_width :: real
  css_zIndex :: int

text \<open>What a click on the search icon reads from the page: the viewport width
  and the three element references, each with its bounding rectangle when the
  element is mounted.\<close>

record Layout =
  innerWidth :: real
  searchButtonRef :: "DOMRect option"
  headerRef :: "DOMRect option"
  wrapperRef :: "DOMRect option"

section \<open>NavBar: component state and the timers of the window\<close>

text \<open>
  The state cells of \<^verbatim>\<open>NavBar\<close>, the ref holding the handle of the scheduled
  close, and the part of the window the component talks to: a clock in
  milliseconds, the table of pending timeouts (handle and due time) and the next
  free handle.  Every timeout this component registers runs the same callback,
  so the table does not store it.
\<close>

record NavBar =
  activeDesktopMenu :: "PrimaryNavItemId option"
  isMobileMenuOpen :: bool
  isLocationDrawerOpen :: bool
  isCartDrawerOpen :: bool
  isWishlistDrawerOpen :: bool
  isSearchBarOpen :: bool
  isHovered :: bool
  isAtTop :: bool
  searchBarStyle :: "CSSProperties option"
  megaMenuCloseTimeoutRef :: "nat option"
  win_now :: real
  win_timeouts :: "(nat \<times> real) list"
  win_nextTimeoutId :: nat

definition NavBar_initial :: NavBar where
  "NavBar_initial =
     \<lparr>activeDesktopMenu = None, isMobileMenuOpen = False, isLocationDrawerOpen = False,
      isCartDrawerOpen = False, isWishlistDrawerOpen = False, isSearchBarOpen = False,
      isHovered = False, isAtTop = True, searchBarStyle = None,
      megaMenuCloseTimeoutRef = None, win_now = 0, win_timeouts = [], win_nextTimeoutId = 0\<rparr>"

subsection \<open>Window timers\<close>

text \<open>
  The host's side of \<^verbatim>\<open>window.setTimeout\<close> and \<^verbatim>\<open>window.clearTimeout\<close>: a delayed,
  cancellable callback on the single event loop.  Setting a timeout enters it in
  the table under a fresh handle, due \<open>delay\<close> milliseconds from now; clearing
  removes the entry with that handle, so a timeout cleared before it is due
  never runs.  The passing of time is \<open>window_elapse\<close> below.
\<close>

definition window_clearTimeout :: "nat \<Rightarrow> NavBar \<Rightarrow> NavBar" where
  "window_clearTimeout h s = s\<lparr>win_timeouts := filter (\<lambda>(h', due). h' \<noteq> h) (win_timeouts s)\<rparr>"

definition window_setTimeout :: "real \<Rightarrow> NavBar \<Rightarrow> nat \<times> NavBar" where
  "window_setTimeout delay s =
     (win_nextTimeoutId s,
      s\<lparr>win_timeouts := win_timeouts s @ [(win_nextTimeoutId s, win_now s + delay)],
        win_nextTimeoutId := Suc (win_nextTimeoutId s)\<rparr>)"

subsection \<open>Handlers\<close>

definition clearMegaMenuCloseTimeout :: "NavBar \<Rightarrow> NavBar" where
  "clearMegaMenuCloseTimeout s =
     (case megaMenuCloseTimeoutRef s of
        None \<Rightarrow> s
      | Some h \<Rightarrow> (window_clearTimeout h s)\<lparr>megaMenuCloseTimeoutRef := None\<rparr>)"

text \<open>The callback registered by \<^verbatim>\<open>scheduleMegaMenuClose\<close>.\<close>

definition megaMenuCloseCallback :: "NavBar \<Rightarrow> NavBar" where
  "megaMenuCloseCallback s = s\<lparr>activeDesktopMenu := None, megaMenuCloseTimeoutRef := None\<rparr>"

definition scheduleMegaMenuClose :: "NavBar \<Rightarrow> NavBar" where
  "scheduleMegaMenuClose s =
     (let (h, s') = window_setTimeout 140 (clearMegaMenuCloseTimeout s)
      in s'\<lparr>megaMenuCloseTimeoutRef := Some h\<rparr>)"

definition handleDesktopItemHover :: "PrimaryNavItemId option \<Rightarrow> NavBar \<Rightarrow> NavBar" where
  "handleDesktopItemHover i s =
     (case i of
        Some m \<Rightarrow> (clearMegaMenuCloseTimeout s)\<lparr>activeDesktopMenu := Some m\<rparr>
      | None \<Rightarrow> s\<lparr>activeDesktopMenu := None\<rparr>)"

definition openLocationDrawer :: "NavBar \<Rightarrow> NavBar" where
  "openLocationDrawer s = s\<lparr>isLocationDrawerOpen := True\<rparr>"

definition closeLocationDrawer :: "NavBar \<Rightarrow> NavBar" where
  "closeLocationDrawer s = s\<lparr>isLocationDrawerOpen := False\<rparr>"

definition openMobileMenu :: "NavBar \<Rightarrow> NavBar" where
  "openMobileMenu s = s\<lparr>isMobileMenuOpen := True\<rparr>"

definition closeMobileMenu :: "NavBar \<Rightarrow> NavBar" where
  "closeMobileMenu s = s\<lparr>isMobileMenuOpen := False\<rparr>"

definition openCartDrawer :: "NavBar \<Rightarrow> NavBar" where
  "openCartDrawer s = s\<lparr>isCartDrawerOpen := True, isWishlistDrawerOpen := False\<rparr>"

definition closeCartDrawer :: "NavBar \<Rightarrow> NavBar" where
  "closeCartDrawer s = s\<lparr>isCartDrawerOpen := False\<rparr>"

definition openWishlistDrawer :: "NavBar \<Rightarrow> NavBar" where
  "openWishlistDrawer s = s\<lparr>isWishlistDrawerOpen := True, isCartDrawerOpen := False\<rparr>"

definition closeWishlistDrawer :: "NavBar \<Rightarrow> NavBar" where
  "closeWishlistDrawer s = s\<lparr>isWishlistDrawerOpen := False\<rparr>"

text \<open>The placement computed when the search bar opens and all three elements
  are mounted: the body of \<^verbatim>\<open>handleSearchToggle\<close> after its early returns.\<close>

definition computedWidth :: "real \<Rightarrow> real" where
  "computedWidth vw = min 800 (max 320 (of_int \<lfloor>vw * 0.44\<rfloor>))"

definition naiveLeft :: "real \<Rightarrow> DOMRect \<Rightarrow> real" where
  "naiveLeft vw btnRect = rect_left btnRect + rect_width btnRect / 2 - computedWidth vw / 2"

definition searchBarPlacement :: "real \<Rightarrow> DOMRect \<Rightarrow> DOMRect \<Rightarrow> DOMRect \<Rightarrow> CSSProperties" where
  "searchBarPlacement vw btnRect hdrRect wrapRect =
     (let left = naiveLeft vw btnRect;
          left = max 12 (min left (vw - computedWidth vw - 12));
          top = max 0 (rect_bottom hdrRect - rect_top wrapRect + 8)
      in \<lparr>css_position = ''absolute'', css_left = left, css_top = top,
          css_width = computedWidth vw, css_zIndex = 72\<rparr>)"

definition handleSearchToggle :: "Layout \<Rightarrow> NavBar \<Rightarrow> NavBar" where
  "handleSearchToggle lay s0 =
     (let s = s0\<lparr>activeDesktopMenu := None\<rparr>
      in if isSearchBarOpen s then s\<lparr>isSearchBarOpen := False, searchBarStyle := None\<rparr>
         else
           (case (searchButtonRef lay, headerRef lay, wrapperRef lay) of
              (Some btnRect, Some hdrRect, Some wrapRect) \<Rightarrow>
                s\<lparr>searchBarStyle :=
                     Some (searchBarPlacement (innerWidth lay) btnRect hdrRect wrapRect),
                  isSearchBarOpen := True\<rparr>
            | _ \<Rightarrow> s\<lparr>isSearchBarOpen := True, searchBarStyle := None\<rparr>))"

subsection \<open>Rendering\<close>

definition currentMegaItem :: "NavBar \<Rightarrow> PrimaryNavItem option" where
  "currentMegaItem s =
     (case activeDesktopMenu s of
        None \<Rightarrow> None
      | Some a \<Rightarrow> find (\<lambda>i. nav_id i = a \<and> hasMegaMenu i) NAV_ITEMS)"

text \<open>\<^verbatim>\<open>DesktopMegaMenu\<close> renders nothing for an item without columns.\<close>

definition DesktopMegaMenu :: "PrimaryNavItem \<Rightarrow> bool" where
  "DesktopMegaMenu item = (case nav_columns item of None \<Rightarrow> False | Some cols \<Rightarrow> cols \<noteq> [])"

text \<open>\<^verbatim>\<open>SearchBar\<close> turns its optional style into the inline style of its root
  element: \<^verbatim>\<open>left\<close>, \<^verbatim>\<open>top\<close> and \<^verbatim>\<open>width\<close> stay undefined without a style, and
  \<^verbatim>\<open>zIndex\<close> defaults to 72.\<close>

record SearchBarElement =
  sb_left :: "real option"
  sb_top :: "real option"
  sb_width :: "real option"
  sb_zIndex :: int

definition SearchBar :: "CSSProperties option \<Rightarrow> SearchBarElement" where
  "SearchBar style =
     \<lparr>sb_left = map_option css_left style, sb_top = map_option css_top style,
      sb_width = map_option css_width style,
      sb_zIndex = (case style of None \<Rightarrow> 72 | Some st \<Rightarrow> css_zIndex st)\<rparr>"

text \<open>The two conditional children of the hover zone, each \<open>None\<close> when it is not
  in the rendered tree: \<^verbatim>\<open>isSearchBarOpen && <SearchBar style=... />\<close> and
  \<^verbatim>\<open>currentMegaItem && !isSearchBarOpen && <DesktopMegaMenu item=... />\<close>.\<close>

definition renderSearchBar :: "NavBar \<Rightarrow> SearchBarElement option" where
  "renderSearchBar s = (if isSearchBarOpen s then Some (SearchBar (searchBarStyle s)) else None)"

definition renderDesktopMegaMenu :: "NavBar \<Rightarrow> PrimaryNavItem option" where
  "renderDesktopMegaMenu s =
     (case currentMegaItem s of
        None \<Rightarrow> None
      | Some item \<Rightarrow> if \<not> isSearchBarOpen s \<and> DesktopMegaMenu item then Some item else None)"

subsection \<open>Events\<close>

text \<open>
  The events the rendered tree reacts to, named after the element and the DOM
  event.  \<open>TimeElapses d\<close> is the window letting \<open>d\<close> milliseconds pass: every
  timeout that is due by then is taken out of the table and its callback runs,
  once.  A timeout due exactly at the new time has fired when the next event is
  handled.
\<close>

datatype NavBarEvent =
    WrapperMouseEnter
  | WrapperMouseLeave
  | HeaderMouseEnter
  | HeaderMouseLeave
  | WindowScroll real
  | HamburgerClick
  | NavItemMouseEnter PrimaryNavItem
  | LocationClick
  | SearchClick Layout
  | WishlistClick
  | CartClick
  | MobileMenuClose
  | LocationDrawerClose
  | CartDrawerClose
  | WishlistDrawerClose
  | TimeElapses real

definition window_elapse :: "real \<Rightarrow> NavBar \<Rightarrow> NavBar" where
  "window_elapse d s =
     (let t = win_now s + d;
          due = filter (\<lambda>(h, dl). dl \<le> t) (win_timeouts s);
          s' = s\<lparr>win_now := t, win_timeouts := filter (\<lambda>(h, dl). \<not> dl \<le> t) (win_timeouts s)\<rparr>
      in fold (\<lambda>_. megaMenuCloseCallback) due s')"

fun handle :: "NavBarEvent \<Rightarrow> NavBar \<Rightarrow> NavBar" where
  "handle WrapperMouseEnter s = clearMegaMenuCloseTimeout s"
| "handle WrapperMouseLeave s = scheduleMegaMenuClose s"
| "handle HeaderMouseEnter s = s\<lparr>isHovered := True\<rparr>"
| "handle HeaderMouseLeave s = s\<lparr>isHovered := False\<rparr>"
| "handle (WindowScroll y) s = s\<lparr>isAtTop := (y \<le> 8)\<rparr>"
| "handle HamburgerClick s = (if isMobileMenuOpen s then closeMobileMenu s else openMobileMenu s)"
| "handle (NavItemMouseEnter item) s =
     (if hasMegaMenu item then handleDesktopItemHover (Some (nav_id item)) s
      else handleDesktopItemHover None s)"
| "handle LocationClick s = openLocationDrawer s"
| "handle (SearchClick lay) s = handleSearchToggle lay s"
| "handle WishlistClick s = openWishlistDrawer s"
| "handle CartClick s = openCartDrawer s"
| "handle MobileMenuClose s = closeMobileMenu s"
| "handle LocationDrawerClose s = closeLocationDrawer s"
| "handle CartDrawerClose s = closeCartDrawer s"
| "handle WishlistDrawerClose s = closeWishlistDrawer s"
| "handle (TimeElapses d) s = window_elapse d s"

text \<open>The states after each event of a sequence, oldest first, and the last of them.\<close>

fun trace :: "NavBarEvent list \<Rightarrow> NavBar \<Rightarrow> NavBar list" where
  "trace [] s = []"
| "trace (e # es) s = handle e s # trace es (handle e s)"

definition run :: "NavBarEvent list \<Rightarrow> NavBar \<Rightarrow> NavBar" where
  "run es s = fold handle es s"

subsection \<open>Exclusive drawers\<close>

text \<open>The four calls of the exclusive drawer set, as the handlers behind them.\<close>

datatype DrawerCall = OpenCart | OpenWishlist | CloseCart | CloseWishlist

fun drawerCall :: "DrawerCall \<Rightarrow> NavBar \<Rightarrow> NavBar" where
  "drawerCall OpenCart s = openCartDrawer s"
| "drawerCall OpenWishlist s = openWishlistDrawer s"
| "drawerCall CloseCart s = closeCartDrawer s"
| "drawerCall CloseWishlist s = closeWishlistDrawer s"

subsection \<open>Pending close and transitions to idle\<close>

text \<open>
  The ref and the timeout table agree: with no handle in the ref no timeout is
  pending, and with a handle in the ref exactly that timeout is pending.  It
  holds in every state reached from the initial one (lemmas \<open>timerInv_initial\<close>,
  \<open>timerInv_handle\<close> and \<open>timerInv_reachable\<close> below).
\<close>

definition timerInv :: "NavBar \<Rightarrow> bool" where
  "timerInv s =
     (case megaMenuCloseTimeoutRef s of
        None \<Rightarrow> win_timeouts s = []
      | Some h \<Rightarrow> map fst (win_timeouts s) = [h])"

text \<open>How often the active menu goes from some menu to none along a sequence of
  states that starts after \<open>s\<close>.\<close>

fun idleTransitions :: "NavBar \<Rightarrow> NavBar list \<Rightarrow> nat" where
  "idleTransitions s [] = 0"
| "idleTransitions s (s' # ss) =
     (if activeDesktopMenu s \<noteq> None \<and> activeDesktopMenu s' = None then 1 else 0)
       + idleTransitions s' ss"

subsection \<open>The clamp of the specification\<close>

text \<open>The specification writes \<^verbatim>\<open>clamp(x, lo, hi)\<close>; this is its usual reading, kept
  apart from the \<^verbatim>\<open>Math.min\<close>/\<^verbatim>\<open>Math.max\<close> nests of the source so that the two can
  be compared.\<close>

definition spec_clamp :: "real \<Rightarrow> real \<Rightarrow> real \<Rightarrow> real" where
  "spec_clamp x lo hi = (if x < lo then lo else if hi < x then hi else x)"

section \<open>Product carousel row\<close>

text \<open>The properties of the track element that the row reads: its scroll
  geometry and its first child, if any.\<close>

record HTMLElement =
  offsetWidth :: real

record TrackNode =
  scrollLeft :: real
  scrollWidth :: real
  clientWidth :: real
  firstElementChild :: "HTMLElement option"

record CarouselRow =
  canScrollPrev :: bool
  canScrollNext :: bool
  scrollProgress :: real

definition CarouselRow_initial :: CarouselRow where
  "CarouselRow_initial = \<lparr>canScrollPrev = False, canScrollNext = False, scrollProgress = 0\<rparr>"

definition updateScrollState :: "TrackNode option \<Rightarrow> CarouselRow \<Rightarrow> CarouselRow" where
  "updateScrollState trackRef st =
     (case trackRef of
        None \<Rightarrow> st
      | Some node \<Rightarrow>
          (let maxScroll = scrollWidth node - clientWidth node
           in st\<lparr>canScrollPrev := (scrollLeft node > 0),
                canScrollNext := (scrollLeft node < maxScroll - 1),
                scrollProgress :=
                  (if maxScroll \<le> 0 then 100 else (scrollLeft node / maxScroll) * 100)\<rparr>))"




section \<open>Exclusive drawers: proofs\<close>

lemma drawerCall_exclusive:
  "\<not> (isCartDrawerOpen s \<and> isWishlistDrawerOpen s) \<Longrightarrow>
   \<not> (isCartDrawerOpen (drawerCall c s) \<and> isWishlistDrawerOpen (drawerCall c s))"
  by (cases c)
     (simp_all add: openCartDrawer_def openWishlistDrawer_def closeCartDrawer_def
        closeWishlistDrawer_def)

lemma fold_drawerCall_exclusive:
  "\<not> (isCartDrawerOpen s \<and> isWishlistDrawerOpen s) \<Longrightarrow>
   \<not> (isCartDrawerOpen (fold drawerCall cs s) \<and> isWishlistDrawerOpen (fold drawerCall cs s))"
proof (induction cs arbitrary: s)
  case Nil
  then show ?case by simp
next
  case (Cons c cs)
  from Cons.prems have "\<not> (isCartDrawerOpen (drawerCall c s) \<and> isWishlistDrawerOpen (drawerCall c s))"
    by (rule drawerCall_exclusive)
  then show ?case using Cons.IH by simp
qed

text \<open>
  Claim C1.  Starting from the initial state (both drawers closed), after any
  sequence of open(cart), open(wishlist), close(cart), close(wishlist) calls the
  cart drawer and the wishlist drawer are not both visible.  Since every prefix
  of a sequence is a sequence, this holds after each call.  Opening one drawer
  makes it visible and the other closed; closing one makes it closed and leaves
  the other as it was.
\<close>

theorem exclusive_drawers:
  "\<not> (isCartDrawerOpen (fold drawerCall cs NavBar_initial) \<and>
      isWishlistDrawerOpen (fold drawerCall cs NavBar_initial))
   \<and> isCartDrawerOpen (drawerCall OpenCart s) \<and> \<not> isWishlistDrawerOpen (drawerCall OpenCart s)
   \<and> isWishlistDrawerOpen (drawerCall OpenWishlist s) \<and> \<not> isCartDrawerOpen (drawerCall OpenWishlist s)
   \<and> \<not> isCartDrawerOpen (drawerCall CloseCart s)
   \<and> isWishlistDrawerOpen (drawerCall CloseCart s) = isWishlistDrawerOpen s
   \<and> \<not> isWishlistDrawerOpen (drawerCall CloseWishlist s)
   \<and> isCartDrawerOpen (drawerCall CloseWishlist s) = isCartDrawerOpen s"
proof -
  have "\<not> (isCartDrawerOpen NavBar_initial \<and> isWishlistDrawerOpen NavBar_initial)"
    by (simp add: NavBar_initial_def)
  then have "\<not> (isCartDrawerOpen (fold drawerCall cs NavBar_initial) \<and>
      isWishlistDrawerOpen (fold drawerCall cs NavBar_initial))"
    by (rule fold_drawerCall_exclusive)
  then show ?thesis
    by (simp add: openCartDrawer_def openWishlistDrawer_def closeCartDrawer_def
        closeWishlistDrawer_def)
qed

section \<open>Hover menu: the pending close\<close>

lemma timerInv_initial: "timerInv NavBar_initial"
  by (simp add: timerInv_def NavBar_initial_def)

lemma timerInv_clear: "timerInv s \<Longrightarrow> timerInv (clearMegaMenuCloseTimeout s)"
  by (auto simp: timerInv_def clearMegaMenuCloseTimeout_def window_clearTimeout_def
      split: option.splits)

lemma clear_no_timeouts:
  "timerInv s \<Longrightarrow> win_timeouts (clearMegaMenuCloseTimeout s) = [] \<and>
     megaMenuCloseTimeoutRef (clearMegaMenuCloseTimeout s) = None \<and>
     activeDesktopMenu (clearMegaMenuCloseTimeout s) = activeDesktopMenu s \<and>
     win_now (clearMegaMenuCloseTimeout s) = win_now s"
  by (auto simp: timerInv_def clearMegaMenuCloseTimeout_def window_clearTimeout_def
      split: option.splits)

lemma schedule_pending:
  "timerInv s \<Longrightarrow>
     \<exists>h. win_timeouts (scheduleMegaMenuClose s) = [(h, win_now s + 140)] \<and>
         megaMenuCloseTimeoutRef (scheduleMegaMenuClose s) = Some h \<and>
         activeDesktopMenu (scheduleMegaMenuClose s) = activeDesktopMenu s \<and>
         win_now (scheduleMegaMenuClose s) = win_now s"
  using clear_no_timeouts[of s]
  by (simp add: scheduleMegaMenuClose_def window_setTimeout_def Let_def)

lemma idle_elapse:
  "win_timeouts s = [] \<Longrightarrow> window_elapse d s = s\<lparr>win_now := win_now s + d\<rparr>"
  by (simp add: window_elapse_def Let_def)

lemma quiet_elapses:
  "win_timeouts s = [] \<Longrightarrow>
     (\<forall>s' \<in> set (trace (map TimeElapses ds) s). activeDesktopMenu s' = activeDesktopMenu s)
     \<and> idleTransitions s (trace (map TimeElapses ds) s) = 0"
proof (induction ds arbitrary: s)
  case Nil
  then show ?case by simp
next
  case (Cons d ds)
  let ?s1 = "s\<lparr>win_now := win_now s + d\<rparr>"
  have e: "window_elapse d s = ?s1" using Cons.prems by (rule idle_elapse)
  have "win_timeouts ?s1 = []" using Cons.prems by simp
  from Cons.IH[OF this] show ?case by (auto simp: e)
qed

lemma run_last: "run es s = last (s # trace es s)"
  unfolding run_def by (induction es arbitrary: s) simp_all

lemma pending_elapse_early:
  "win_timeouts s = [(h, dl)] \<Longrightarrow> win_now s + d < dl \<Longrightarrow>
     window_elapse d s = s\<lparr>win_now := win_now s + d\<rparr>"
  by (simp add: window_elapse_def Let_def)

lemma pending_elapse_due:
  "win_timeouts s = [(h, dl)] \<Longrightarrow> dl \<le> win_now s + d \<Longrightarrow>
     window_elapse d s =
       s\<lparr>win_now := win_now s + d, win_timeouts := [],
         activeDesktopMenu := None, megaMenuCloseTimeoutRef := None\<rparr>"
  by (simp add: window_elapse_def Let_def megaMenuCloseCallback_def)

lemma timerInv_elapse:
  assumes "timerInv s"
  shows "timerInv (window_elapse d s)"
proof (cases "megaMenuCloseTimeoutRef s")
  case None
  then have "win_timeouts s = []" using assms by (simp add: timerInv_def)
  then show ?thesis using None by (simp add: idle_elapse timerInv_def)
next
  case (Some h)
  then have "map fst (win_timeouts s) = [h]" using assms by (simp add: timerInv_def)
  then obtain dl where t: "win_timeouts s = [(h, dl)]" by auto
  show ?thesis
  proof (cases "win_now s + d < dl")
    case True
    then show ?thesis using t Some by (simp add: pending_elapse_early timerInv_def)
  next
    case False
    then show ?thesis using t by (simp add: pending_elapse_due timerInv_def)
  qed
qed

lemma timerInv_handle: "timerInv s \<Longrightarrow> timerInv (handle e s)"
proof (cases e)
  case WrapperMouseEnter
  assume "timerInv s"
  then show ?thesis by (simp add: WrapperMouseEnter timerInv_clear)
next
  case WrapperMouseLeave
  assume "timerInv s"
  from schedule_pending[OF this] show ?thesis
    by (auto simp: WrapperMouseLeave timerInv_def)
next
  case (TimeElapses d)
  assume "timerInv s"
  then show ?thesis by (simp add: TimeElapses timerInv_elapse)
next
  case (NavItemMouseEnter item)
  assume "timerInv s"
  then show ?thesis
    by (auto simp: NavItemMouseEnter handleDesktopItemHover_def timerInv_def
        clearMegaMenuCloseTimeout_def window_clearTimeout_def split: option.splits)
qed (auto simp: timerInv_def handleSearchToggle_def Let_def
      openLocationDrawer_def closeLocationDrawer_def openMobileMenu_def closeMobileMenu_def
      openCartDrawer_def closeCartDrawer_def openWishlistDrawer_def closeWishlistDrawer_def
      split: option.splits)

lemma pending_elapses:
  assumes "win_timeouts s = [(h, dl)]" "activeDesktopMenu s = Some a" "win_now s < dl"
    "\<forall>d \<in> set ds. 0 \<le> d"
  shows "(win_now s + sum_list ds < dl \<longrightarrow>
            (\<forall>s' \<in> set (trace (map TimeElapses ds) s).
               activeDesktopMenu s' = Some a \<and> win_timeouts s' = [(h, dl)]
               \<and> megaMenuCloseTimeoutRef s' = megaMenuCloseTimeoutRef s)
            \<and> idleTransitions s (trace (map TimeElapses ds) s) = 0)
       \<and> (dl \<le> win_now s + sum_list ds \<longrightarrow>
            idleTransitions s (trace (map TimeElapses ds) s) = 1
            \<and> activeDesktopMenu (run (map TimeElapses ds) s) = None)"
  using assms
proof (induction ds arbitrary: s)
  case Nil
  then show ?case by simp
next
  case (Cons d ds)
  have d0: "0 \<le> d" and ds0: "\<forall>d \<in> set ds. 0 \<le> d" using Cons.prems(4) by simp_all
  have sum0: "0 \<le> sum_list ds" using ds0 by (simp add: sum_list_nonneg)
  show ?case
  proof (cases "win_now s + d < dl")
    case True
    let ?s1 = "s\<lparr>win_now := win_now s + d\<rparr>"
    have e: "window_elapse d s = ?s1"
      using Cons.prems(1) True by (rule pending_elapse_early)
    have "win_timeouts ?s1 = [(h, dl)]" "activeDesktopMenu ?s1 = Some a" "win_now ?s1 < dl"
      using Cons.prems True by simp_all
    from Cons.IH[OF this ds0] show ?thesis
      using Cons.prems(1,2) by (auto simp: e run_def add.assoc)
  next
    case False
    let ?s1 = "s\<lparr>win_now := win_now s + d, win_timeouts := [],
         activeDesktopMenu := None, megaMenuCloseTimeoutRef := None\<rparr>"
    have e: "window_elapse d s = ?s1"
    proof (rule pending_elapse_due[OF Cons.prems(1)])
      show "dl \<le> win_now s + d" using False by simp
    qed
    have q: "win_timeouts ?s1 = []" by simp
    have late: "dl \<le> win_now s + (d + sum_list ds)" using False sum0 by simp
    have "last (?s1 # trace (map TimeElapses ds) ?s1) \<in> set (?s1 # trace (map TimeElapses ds) ?s1)"
      by (rule last_in_set) simp
    then have "activeDesktopMenu (run (map TimeElapses ds) ?s1) = None"
      using quiet_elapses[OF q, of ds] unfolding run_last by auto
    then show ?thesis
      using quiet_elapses[OF q, of ds] Cons.prems(2) late
      by (simp add: e run_def)
  qed
qed


lemma trace_append: "trace (es @ es') s = trace es s @ trace es' (run es s)"
  unfolding run_def by (induction es arbitrary: s) simp_all

lemma run_append: "run (es @ es') s = run es' (run es s)"
  by (simp add: run_def)

lemma run_Cons: "run (e # es) s = run es (handle e s)"
  by (simp add: run_def)

lemma timerInv_run: "timerInv s \<Longrightarrow> timerInv (run es s)"
  unfolding run_def by (induction es arbitrary: s) (simp_all add: timerInv_handle)

lemma timerInv_reachable: "timerInv (run es NavBar_initial)"
  using timerInv_initial by (rule timerInv_run)

text \<open>
  Claim C2.  Let the controller be in state Open(\<open>a\<close>), and let the pointer leave
  the hover zone.  If the pointer enters the zone again after less than 140 ms
  in total (any number of steps of time), the active menu is \<open>a\<close> after every
  event from the leave on, however much time passes after the enter, and the
  enter leaves no timeout pending.  If instead at least 140 ms pass with no
  enter, the active menu goes from some menu to none exactly once along the
  way.  In both cases the active menu after the wait is \<open>a\<close> when less than
  140 ms have passed and none otherwise, so the single transition is the firing
  of the 140 ms timeout.
\<close>

theorem hover_menu_debounce:
  assumes "timerInv s" and "activeDesktopMenu s = Some a"
    and "\<forall>d \<in> set ds. 0 \<le> d" and "\<forall>d \<in> set ds'. 0 \<le> d"
  shows "(sum_list ds < 140 \<longrightarrow>
            (\<forall>s' \<in> set (trace (WrapperMouseLeave # map TimeElapses ds
                                  @ WrapperMouseEnter # map TimeElapses ds') s).
               activeDesktopMenu s' = Some a)
            \<and> win_timeouts (run (WrapperMouseLeave # map TimeElapses ds @ [WrapperMouseEnter]) s) = [])
       \<and> (140 \<le> sum_list ds \<longrightarrow>
            idleTransitions s (trace (WrapperMouseLeave # map TimeElapses ds) s) = 1)
       \<and> activeDesktopMenu (run (WrapperMouseLeave # map TimeElapses ds) s) =
            (if sum_list ds < 140 then Some a else None)"
proof -
  let ?s1 = "handle WrapperMouseLeave s"
  from schedule_pending[OF assms(1)] obtain h where
    p: "win_timeouts ?s1 = [(h, win_now s + 140)]" "megaMenuCloseTimeoutRef ?s1 = Some h"
       "activeDesktopMenu ?s1 = Some a" "win_now ?s1 = win_now s"
    using assms(2) by auto
  have lt: "win_now ?s1 < win_now s + 140" using p(4) by simp
  note pe = pending_elapses[OF p(1) p(3) lt assms(3)]
  let ?s2 = "run (map TimeElapses ds) ?s1"
  have fin: "activeDesktopMenu (run (WrapperMouseLeave # map TimeElapses ds) s) =
            (if sum_list ds < 140 then Some a else None)"
  proof (cases "sum_list ds < 140")
    case True
    have "last (?s1 # trace (map TimeElapses ds) ?s1) \<in> set (?s1 # trace (map TimeElapses ds) ?s1)"
      by (rule last_in_set) simp
    then have "activeDesktopMenu ?s2 = Some a"
      using pe True p(3,4) unfolding run_last by auto
    then show ?thesis using True by (simp add: run_Cons)
  next
    case False
    then show ?thesis using pe p(4) by (simp add: run_Cons)
  qed
  have once: "140 \<le> sum_list ds \<longrightarrow>
            idleTransitions s (trace (WrapperMouseLeave # map TimeElapses ds) s) = 1"
    using pe p(3,4) assms(2) by simp
  have early: "sum_list ds < 140 \<longrightarrow>
            (\<forall>s' \<in> set (trace (WrapperMouseLeave # map TimeElapses ds
                                  @ WrapperMouseEnter # map TimeElapses ds') s).
               activeDesktopMenu s' = Some a)
            \<and> win_timeouts (run (WrapperMouseLeave # map TimeElapses ds @ [WrapperMouseEnter]) s) = []"
  proof
    assume short: "sum_list ds < 140"
    have a2: "activeDesktopMenu ?s2 = Some a"
      using fin short by (simp add: run_Cons)
    have "timerInv ?s1" using assms(1) by (rule timerInv_handle)
    then have inv2: "timerInv ?s2" by (rule timerInv_run)
    let ?s3 = "handle WrapperMouseEnter ?s2"
    have c: "win_timeouts ?s3 = []" "activeDesktopMenu ?s3 = Some a"
      using clear_no_timeouts[OF inv2] a2 by simp_all
    have rest: "\<forall>s' \<in> set (trace (map TimeElapses ds') ?s3). activeDesktopMenu s' = Some a"
      using quiet_elapses[OF c(1), of ds'] c(2) by simp
    have first: "\<forall>s' \<in> set (trace (map TimeElapses ds) ?s1). activeDesktopMenu s' = Some a"
      using pe short p(4) by simp
    have tr: "trace (WrapperMouseLeave # map TimeElapses ds @ WrapperMouseEnter # map TimeElapses ds') s
          = ?s1 # trace (map TimeElapses ds) ?s1 @ ?s3 # trace (map TimeElapses ds') ?s3"
      by (simp add: trace_append)
    have r3: "run (WrapperMouseLeave # map TimeElapses ds @ [WrapperMouseEnter]) s = ?s3"
      by (simp add: run_Cons run_append) (simp add: run_def)
    show "(\<forall>s' \<in> set (trace (WrapperMouseLeave # map TimeElapses ds
                                  @ WrapperMouseEnter # map TimeElapses ds') s).
               activeDesktopMenu s' = Some a)
            \<and> win_timeouts (run (WrapperMouseLeave # map TimeElapses ds @ [WrapperMouseEnter]) s) = []"
      unfolding tr r3 using first rest p(3) c by auto
  qed
  show ?thesis using early once fin by blast
qed

text \<open>The definitions unfolded when a handler is evaluated at a concrete state.\<close>

lemmas handler_defs =
  clearMegaMenuCloseTimeout_def scheduleMegaMenuClose_def window_setTimeout_def
  window_clearTimeout_def handleDesktopItemHover_def window_elapse_def megaMenuCloseCallback_def
  NavBar_initial_def run_def timerInv_def Let_def

lemma length_trace: "length (trace es s) = length es"
  by (induction es arbitrary: s) simp_all

lemma map_constant: "\<forall>x \<in> set xs. f x = v \<Longrightarrow> map f xs = replicate (length xs) v"
  by (induction xs) simp_all

theorem hover_menu_debounce_witness:
  "timerInv (run [NavItemMouseEnter (NAV_ITEMS ! 0)] NavBar_initial)
   \<and> activeDesktopMenu (run [NavItemMouseEnter (NAV_ITEMS ! 0)] NavBar_initial) = Some Men
   \<and> sum_list [100, 39 :: real] < 140
   \<and> map activeDesktopMenu
        (trace [WrapperMouseLeave, TimeElapses 100, TimeElapses 39, WrapperMouseEnter,
                TimeElapses 500]
           (run [NavItemMouseEnter (NAV_ITEMS ! 0)] NavBar_initial))
      = [Some Men, Some Men, Some Men, Some Men, Some Men]
   \<and> 140 \<le> sum_list [100, 40 :: real]
   \<and> idleTransitions (run [NavItemMouseEnter (NAV_ITEMS ! 0)] NavBar_initial)
        (trace [WrapperMouseLeave, TimeElapses 100, TimeElapses 40]
           (run [NavItemMouseEnter (NAV_ITEMS ! 0)] NavBar_initial)) = 1
   \<and> activeDesktopMenu
        (run [WrapperMouseLeave, TimeElapses 100, TimeElapses 40]
           (run [NavItemMouseEnter (NAV_ITEMS ! 0)] NavBar_initial)) = None"
proof -
  define s where "s = run [NavItemMouseEnter (NAV_ITEMS ! 0)] NavBar_initial"
  have s: "s = NavBar_initial\<lparr>activeDesktopMenu := Some Men\<rparr>"
    by (simp add: s_def handler_defs NAV_ITEMS_def)
  have i: "timerInv s" unfolding s by (simp add: timerInv_def NavBar_initial_def)
  have a: "activeDesktopMenu s = Some Men" unfolding s by simp
  have n1: "\<forall>d \<in> set [100, 39 :: real]. 0 \<le> d" by simp
  have n2: "\<forall>d \<in> set [500 :: real]. 0 \<le> d" by simp
  have n3: "\<forall>d \<in> set [100, 40 :: real]. 0 \<le> d" by simp
  have n4: "\<forall>d \<in> set ([] :: real list). 0 \<le> d" by simp
  have l1: "sum_list [100, 39 :: real] < 140" by simp
  have l2: "140 \<le> sum_list [100, 40 :: real]" by simp
  have e1: "WrapperMouseLeave # map TimeElapses [100, 39] @ WrapperMouseEnter # map TimeElapses [500]
      = [WrapperMouseLeave, TimeElapses 100, TimeElapses 39, WrapperMouseEnter, TimeElapses 500]"
    by simp
  have e2: "WrapperMouseLeave # map TimeElapses [100, 40]
      = [WrapperMouseLeave, TimeElapses 100, TimeElapses 40]"
    by simp
  note t1 = hover_menu_debounce[OF i a n1 n2]
  note t2 = hover_menu_debounce[OF i a n3 n4]
  have "\<forall>s' \<in> set (trace (WrapperMouseLeave # map TimeElapses [100, 39]
                                  @ WrapperMouseEnter # map TimeElapses [500]) s).
               activeDesktopMenu s' = Some Men"
    by (rule conjunct1[OF mp[OF conjunct1[OF t1] l1]])
  then have "map activeDesktopMenu
        (trace [WrapperMouseLeave, TimeElapses 100, TimeElapses 39, WrapperMouseEnter,
                TimeElapses 500] s)
      = replicate (length (trace [WrapperMouseLeave, TimeElapses 100, TimeElapses 39,
                WrapperMouseEnter, TimeElapses 500] s)) (Some Men)"
    unfolding e1 by (rule map_constant)
  also have "\<dots> = [Some Men, Some Men, Some Men, Some Men, Some Men]"
    unfolding length_trace by simp
  finally have c1: "map activeDesktopMenu
        (trace [WrapperMouseLeave, TimeElapses 100, TimeElapses 39, WrapperMouseEnter,
                TimeElapses 500] s)
      = [Some Men, Some Men, Some Men, Some Men, Some Men]" .
  have c2: "idleTransitions s (trace [WrapperMouseLeave, TimeElapses 100, TimeElapses 40] s) = 1"
    using mp[OF conjunct1[OF conjunct2[OF t2]] l2] unfolding e2 .
  have "activeDesktopMenu (run [WrapperMouseLeave, TimeElapses 100, TimeElapses 40] s)
      = (if sum_list [100, 40 :: real] < 140 then Some Men else None)"
    using conjunct2[OF conjunct2[OF t2]] unfolding e2 .
  also have "\<dots> = None" by simp
  finally have c3: "activeDesktopMenu (run [WrapperMouseLeave, TimeElapses 100, TimeElapses 40] s)
      = None" .
  show ?thesis
    unfolding s_def[symmetric] using i a l1 c1 l2 c2 c3 by (intro conjI)
qed

section \<open>Hover menu: switching between panels\<close>

lemma NAV_ITEMS_cases:
  "item \<in> set NAV_ITEMS \<Longrightarrow>
     item = NAV_ITEMS ! 0 \<or> item = NAV_ITEMS ! 1 \<or> item = NAV_ITEMS ! 2
     \<or> item = NAV_ITEMS ! 3 \<or> item = NAV_ITEMS ! 4"
  by (simp add: NAV_ITEMS_def)

lemma find_Men:
  "find (\<lambda>i. nav_id i = nav_id (NAV_ITEMS ! 0) \<and> hasMegaMenu i) NAV_ITEMS = Some (NAV_ITEMS ! 0)"
  by (simp add: NAV_ITEMS_def)

lemma find_Women:
  "find (\<lambda>i. nav_id i = nav_id (NAV_ITEMS ! 1) \<and> hasMegaMenu i) NAV_ITEMS = Some (NAV_ITEMS ! 1)"
  by (simp add: NAV_ITEMS_def)

lemma find_Explore:
  "find (\<lambda>i. nav_id i = nav_id (NAV_ITEMS ! 2) \<and> hasMegaMenu i) NAV_ITEMS = Some (NAV_ITEMS ! 2)"
  by (simp add: NAV_ITEMS_def)

lemma Sustainability_no_panel: "\<not> hasMegaMenu (NAV_ITEMS ! 3)"
  by (simp add: NAV_ITEMS_def)

lemma find_Help:
  "find (\<lambda>i. nav_id i = nav_id (NAV_ITEMS ! 4) \<and> hasMegaMenu i) NAV_ITEMS = Some (NAV_ITEMS ! 4)"
  by (simp add: NAV_ITEMS_def)

lemma find_NAV_ITEMS:
  assumes "item \<in> set NAV_ITEMS" and "hasMegaMenu item"
  shows "find (\<lambda>i. nav_id i = nav_id item \<and> hasMegaMenu i) NAV_ITEMS = Some item"
  using NAV_ITEMS_cases[OF assms(1)] assms(2)
    find_Men find_Women find_Explore Sustainability_no_panel find_Help
  by (elim disjE) simp_all

text \<open>
  Claim C6.  Let the controller be in state Open(A), A an entry with a panel, with
  or without a close pending, and let the pointer enter the button of an entry B
  of the navigation that has a panel.  The handler itself, with no time passing
  and no timeout involved, makes B the active menu and B's entry the current
  mega item; it leaves no timeout pending and the ref empty, so a close scheduled
  while in Open(A) is cancelled: however much time passes afterwards, the active
  menu stays B.
\<close>

theorem hover_menu_switch:
  assumes "timerInv s" and "currentMegaItem s = Some itemA"
    and "itemB \<in> set NAV_ITEMS" and "hasMegaMenu itemB"
    and "\<forall>d \<in> set ds. 0 \<le> d"
  shows "activeDesktopMenu (handle (NavItemMouseEnter itemB) s) = Some (nav_id itemB)
       \<and> currentMegaItem (handle (NavItemMouseEnter itemB) s) = Some itemB
       \<and> win_now (handle (NavItemMouseEnter itemB) s) = win_now s
       \<and> megaMenuCloseTimeoutRef (handle (NavItemMouseEnter itemB) s) = None
       \<and> win_timeouts (handle (NavItemMouseEnter itemB) s) = []
       \<and> (\<forall>s' \<in> set (trace (map TimeElapses ds) (handle (NavItemMouseEnter itemB) s)).
             activeDesktopMenu s' = Some (nav_id itemB))"
proof -
  define s' where "s' = handle (NavItemMouseEnter itemB) s"
  have h: "s' = (clearMegaMenuCloseTimeout s)\<lparr>activeDesktopMenu := Some (nav_id itemB)\<rparr>"
    using assms(4) by (simp add: s'_def handleDesktopItemHover_def)
  have a: "activeDesktopMenu s' = Some (nav_id itemB)" by (simp add: h)
  have c: "currentMegaItem s' = Some itemB"
    using find_NAV_ITEMS[OF assms(3,4)] by (simp add: currentMegaItem_def a)
  have q: "win_timeouts s' = []" "megaMenuCloseTimeoutRef s' = None" "win_now s' = win_now s"
    using clear_no_timeouts[OF assms(1)] by (simp_all add: h)
  have "\<forall>s'' \<in> set (trace (map TimeElapses ds) s'). activeDesktopMenu s'' = Some (nav_id itemB)"
    using quiet_elapses[OF q(1), of ds] a by simp
  then show ?thesis using a c q unfolding s'_def by simp
qed

theorem hover_menu_switch_witness:
  "timerInv (run [NavItemMouseEnter (NAV_ITEMS ! 0), WrapperMouseLeave, TimeElapses 50] NavBar_initial)
   \<and> currentMegaItem (run [NavItemMouseEnter (NAV_ITEMS ! 0), WrapperMouseLeave, TimeElapses 50] NavBar_initial)
       = Some (NAV_ITEMS ! 0)
   \<and> win_timeouts (run [NavItemMouseEnter (NAV_ITEMS ! 0), WrapperMouseLeave, TimeElapses 50] NavBar_initial)
       = [(0, 140)]
   \<and> NAV_ITEMS ! 1 \<in> set NAV_ITEMS \<and> hasMegaMenu (NAV_ITEMS ! 1)
   \<and> map activeDesktopMenu
        (trace [NavItemMouseEnter (NAV_ITEMS ! 1), TimeElapses 89, TimeElapses 1, TimeElapses 1000]
           (run [NavItemMouseEnter (NAV_ITEMS ! 0), WrapperMouseLeave, TimeElapses 50] NavBar_initial))
      = [Some Women, Some Women, Some Women, Some Women]
   \<and> win_timeouts
        (handle (NavItemMouseEnter (NAV_ITEMS ! 1))
           (run [NavItemMouseEnter (NAV_ITEMS ! 0), WrapperMouseLeave, TimeElapses 50] NavBar_initial))
      = []"
proof -
  define s where
    "s = run [NavItemMouseEnter (NAV_ITEMS ! 0), WrapperMouseLeave, TimeElapses 50] NavBar_initial"
  have s: "s = NavBar_initial\<lparr>activeDesktopMenu := Some Men, megaMenuCloseTimeoutRef := Some 0,
      win_now := 50, win_timeouts := [(0, 140)], win_nextTimeoutId := 1\<rparr>"
    by (simp add: s_def handler_defs NAV_ITEMS_def)
  have i: "timerInv s" unfolding s by (simp add: timerInv_def NavBar_initial_def)
  have a: "currentMegaItem s = Some (NAV_ITEMS ! 0)"
    unfolding s by (simp add: currentMegaItem_def NavBar_initial_def NAV_ITEMS_def)
  have t: "win_timeouts s = [(0, 140)]" unfolding s by simp
  have b: "NAV_ITEMS ! 1 \<in> set NAV_ITEMS" "hasMegaMenu (NAV_ITEMS ! 1)"
    by (simp_all add: NAV_ITEMS_def)
  have n: "\<forall>d \<in> set [89, 1, 1000 :: real]. 0 \<le> d" by simp
  have w: "nav_id (NAV_ITEMS ! 1) = Women" by (simp add: NAV_ITEMS_def)
  define s' where "s' = handle (NavItemMouseEnter (NAV_ITEMS ! 1)) s"
  note th = hover_menu_switch[OF i a b n, folded s'_def, unfolded w]
  have act: "activeDesktopMenu s' = Some Women" by (rule conjunct1[OF th])
  have q: "win_timeouts s' = []"
    by (rule conjunct1[OF conjunct2[OF conjunct2[OF conjunct2[OF conjunct2[OF th]]]]])
  have "\<forall>x \<in> set (trace (map TimeElapses [89, 1, 1000]) s'). activeDesktopMenu x = Some Women"
    by (rule conjunct2[OF conjunct2[OF conjunct2[OF conjunct2[OF conjunct2[OF th]]]]])
  then have "map activeDesktopMenu (trace (map TimeElapses [89, 1, 1000]) s')
      = replicate (length (trace (map TimeElapses [89, 1, 1000]) s')) (Some Women)"
    by (rule map_constant)
  also have "\<dots> = [Some Women, Some Women, Some Women]"
    unfolding length_trace by simp
  finally have m: "map activeDesktopMenu (trace (map TimeElapses [89, 1, 1000]) s')
      = [Some Women, Some Women, Some Women]" .
  have tr: "trace [NavItemMouseEnter (NAV_ITEMS ! 1), TimeElapses 89, TimeElapses 1, TimeElapses 1000] s
      = s' # trace (map TimeElapses [89, 1, 1000]) s'"
    by (simp only: trace.simps list.map s'_def)
  have c: "map activeDesktopMenu
        (trace [NavItemMouseEnter (NAV_ITEMS ! 1), TimeElapses 89, TimeElapses 1, TimeElapses 1000] s)
      = [Some Women, Some Women, Some Women, Some Women]"
    unfolding tr using act m by (simp only: list.map)
  show ?thesis
    unfolding s_def[symmetric] s'_def[symmetric] using i a t b c q by (intro conjI)
qed

section \<open>Search overlay: placement\<close>

lemma computedWidth_fits: "344 \<le> vw \<Longrightarrow> computedWidth vw \<le> vw - 24"
proof -
  assume a: "344 \<le> vw"
  have f: "of_int \<lfloor>vw * 0.44\<rfloor> \<le> vw * 0.44" by (rule of_int_floor_le)
  have "vw * 0.44 \<le> vw - 24" using a by simp
  then have "max 320 (of_int \<lfloor>vw * 0.44\<rfloor>) \<le> vw - 24" using f a by simp
  moreover have "min 800 (max 320 (of_int \<lfloor>vw * 0.44\<rfloor>)) \<le> max 320 (of_int \<lfloor>vw * 0.44\<rfloor> :: real)"
    by (rule min.cobounded2)
  ultimately show ?thesis unfolding computedWidth_def by (rule order_trans[rotated])
qed

lemma computedWidth_narrow: "vw < 344 \<Longrightarrow> computedWidth vw = 320"
proof -
  assume a: "vw < 344"
  have "\<lfloor>vw * 0.44\<rfloor> \<le> 320"
    using a by (simp add: floor_le_iff)
  then have "real_of_int \<lfloor>vw * 0.44\<rfloor> \<le> 320" by linarith
  then show ?thesis unfolding computedWidth_def by simp
qed

lemma computedWidth_clamp: "computedWidth vw = spec_clamp (of_int \<lfloor>vw * 0.44\<rfloor>) 320 800"
  by (simp add: computedWidth_def spec_clamp_def)

lemma handleSearchToggle_open:
  assumes "\<not> isSearchBarOpen s" "searchButtonRef lay = Some btnRect"
    "headerRef lay = Some hdrRect" "wrapperRef lay = Some wrapRect"
  shows "handleSearchToggle lay s =
      s\<lparr>activeDesktopMenu := None,
        searchBarStyle := Some (searchBarPlacement (innerWidth lay) btnRect hdrRect wrapRect),
        isSearchBarOpen := True\<rparr>"
  using assms by (simp add: handleSearchToggle_def)

text \<open>
  Claim C7, as amended.  Whenever the search bar opens with all three elements
  mounted, the style has width clamp(floor(viewportWidth * 0.44), 320, 800), and
  left = max(12, min(naive left, viewportWidth - width - 12)), which is at least
  12 and equals 12 when naive centering would place left below 12.  For a
  viewport at least 344 px wide, where 12 <= viewportWidth - width - 12, left is
  the naive left clamped into [12, viewportWidth - width - 12]: it lies in the
  interval, and it equals the upper bound when naive centering would place
  left + width beyond viewportWidth - 12.  For a narrower viewport the interval
  is empty and left is 12.
\<close>

theorem overlay_clamping:
  assumes "\<not> isSearchBarOpen s" and "searchButtonRef lay = Some btnRect"
    and "headerRef lay = Some hdrRect" and "wrapperRef lay = Some wrapRect"
  shows "\<exists>st. searchBarStyle (handleSearchToggle lay s) = Some st
       \<and> css_width st = spec_clamp (of_int \<lfloor>innerWidth lay * 0.44\<rfloor>) 320 800
       \<and> css_left st = max 12 (min (naiveLeft (innerWidth lay) btnRect)
                                    (innerWidth lay - css_width st - 12))
       \<and> 12 \<le> css_left st
       \<and> (naiveLeft (innerWidth lay) btnRect < 12 \<longrightarrow> css_left st = 12)
       \<and> (344 \<le> innerWidth lay \<longrightarrow>
            css_left st = spec_clamp (naiveLeft (innerWidth lay) btnRect) 12
                            (innerWidth lay - css_width st - 12)
            \<and> css_left st \<le> innerWidth lay - css_width st - 12
            \<and> (innerWidth lay - 12 < naiveLeft (innerWidth lay) btnRect + css_width st \<longrightarrow>
                 css_left st = innerWidth lay - css_width st - 12))
       \<and> (innerWidth lay < 344 \<longrightarrow> css_left st = 12)"
proof -
  define vw where "vw = innerWidth lay"
  define st where "st = searchBarPlacement vw btnRect hdrRect wrapRect"
  have o: "searchBarStyle (handleSearchToggle lay s) = Some st"
    by (simp add: handleSearchToggle_open[OF assms] st_def vw_def)
  have w: "css_width st = computedWidth vw"
    by (simp add: st_def searchBarPlacement_def Let_def)
  have l: "css_left st = max 12 (min (naiveLeft vw btnRect) (vw - computedWidth vw - 12))"
    by (simp add: st_def searchBarPlacement_def Let_def)
  have fits: "344 \<le> vw \<Longrightarrow> 12 \<le> vw - computedWidth vw - 12"
    using computedWidth_fits[of vw] by simp
  have narrow: "vw < 344 \<Longrightarrow> vw - computedWidth vw - 12 < 12"
    using computedWidth_narrow[of vw] by simp
  have "css_width st = spec_clamp (of_int \<lfloor>vw * 0.44\<rfloor>) 320 800"
    by (simp add: w computedWidth_clamp)
  moreover have "css_left st = max 12 (min (naiveLeft vw btnRect) (vw - css_width st - 12))"
    by (simp add: l w)
  moreover have "12 \<le> css_left st" by (simp add: l)
  moreover have "naiveLeft vw btnRect < 12 \<longrightarrow> css_left st = 12" by (simp add: l)
  moreover have "344 \<le> vw \<longrightarrow>
            css_left st = spec_clamp (naiveLeft vw btnRect) 12 (vw - css_width st - 12)
            \<and> css_left st \<le> vw - css_width st - 12
            \<and> (vw - 12 < naiveLeft vw btnRect + css_width st \<longrightarrow>
                 css_left st = vw - css_width st - 12)"
    using fits by (auto simp: l w spec_clamp_def)
  moreover have "vw < 344 \<longrightarrow> css_left st = 12"
    using narrow by (auto simp: l)
  ultimately have "searchBarStyle (handleSearchToggle lay s) = Some st
       \<and> css_width st = spec_clamp (of_int \<lfloor>vw * 0.44\<rfloor>) 320 800
       \<and> css_left st = max 12 (min (naiveLeft vw btnRect) (vw - css_width st - 12))
       \<and> 12 \<le> css_left st
       \<and> (naiveLeft vw btnRect < 12 \<longrightarrow> css_left st = 12)
       \<and> (344 \<le> vw \<longrightarrow>
            css_left st = spec_clamp (naiveLeft vw btnRect) 12 (vw - css_width st - 12)
            \<and> css_left st \<le> vw - css_width st - 12
            \<and> (vw - 12 < naiveLeft vw btnRect + css_width st \<longrightarrow>
                 css_left st = vw - css_width st - 12))
       \<and> (vw < 344 \<longrightarrow> css_left st = 12)"
    using o by (intro conjI)
  then show ?thesis unfolding vw_def by (rule exI)
qed

lemmas search_defs =
  handleSearchToggle_def searchBarPlacement_def naiveLeft_def computedWidth_def spec_clamp_def
  NavBar_initial_def Let_def

theorem overlay_clamping_witness:
  "\<not> isSearchBarOpen NavBar_initial
   \<and> (344 :: real) \<le> 1000
   \<and> naiveLeft 1000 \<lparr>rect_left = 940, rect_top = 50, rect_width = 24, rect_bottom = 74\<rparr> = 732
   \<and> (1000 :: real) - 12 < 732 + 440
   \<and> map_option (\<lambda>st. (css_width st, css_left st))
        (searchBarStyle (handleSearchToggle
           \<lparr>innerWidth = 1000,
            searchButtonRef = Some \<lparr>rect_left = 940, rect_top = 50, rect_width = 24, rect_bottom = 74\<rparr>,
            headerRef = Some \<lparr>rect_left = 0, rect_top = 35, rect_width = 1000, rect_bottom = 95\<rparr>,
            wrapperRef = Some \<lparr>rect_left = 0, rect_top = 35, rect_width = 1000, rect_bottom = 95\<rparr>\<rparr>
           NavBar_initial)) = Some (440, 1000 - 440 - 12)
   \<and> naiveLeft 1000 \<lparr>rect_left = 10, rect_top = 50, rect_width = 24, rect_bottom = 74\<rparr> < 12
   \<and> map_option (\<lambda>st. (css_width st, css_left st))
        (searchBarStyle (handleSearchToggle
           \<lparr>innerWidth = 1000,
            searchButtonRef = Some \<lparr>rect_left = 10, rect_top = 50, rect_width = 24, rect_bottom = 74\<rparr>,
            headerRef = Some \<lparr>rect_left = 0, rect_top = 35, rect_width = 1000, rect_bottom = 95\<rparr>,
            wrapperRef = Some \<lparr>rect_left = 0, rect_top = 35, rect_width = 1000, rect_bottom = 95\<rparr>\<rparr>
           NavBar_initial)) = Some (440, 12)
   \<and> (300 :: real) < 344
   \<and> map_option (\<lambda>st. (css_width st, css_left st))
        (searchBarStyle (handleSearchToggle
           \<lparr>innerWidth = 300,
            searchButtonRef = Some \<lparr>rect_left = 250, rect_top = 50, rect_width = 20, rect_bottom = 70\<rparr>,
            headerRef = Some \<lparr>rect_left = 0, rect_top = 35, rect_width = 300, rect_bottom = 95\<rparr>,
            wrapperRef = Some \<lparr>rect_left = 0, rect_top = 35, rect_width = 300, rect_bottom = 95\<rparr>\<rparr>
           NavBar_initial)) = Some (320, 12)"
proof -
  let ?b1 = "\<lparr>rect_left = 940, rect_top = 50, rect_width = 24, rect_bottom = 74 :: real\<rparr>"
  let ?b2 = "\<lparr>rect_left = 10, rect_top = 50, rect_width = 24, rect_bottom = 74 :: real\<rparr>"
  let ?b3 = "\<lparr>rect_left = 250, rect_top = 50, rect_width = 20, rect_bottom = 70 :: real\<rparr>"
  let ?h1 = "\<lparr>rect_left = 0, rect_top = 35, rect_width = 1000, rect_bottom = 95 :: real\<rparr>"
  let ?h3 = "\<lparr>rect_left = 0, rect_top = 35, rect_width = 300, rect_bottom = 95 :: real\<rparr>"
  let ?l1 = "\<lparr>innerWidth = 1000, searchButtonRef = Some ?b1, headerRef = Some ?h1,
              wrapperRef = Some ?h1\<rparr>"
  let ?l2 = "\<lparr>innerWidth = 1000, searchButtonRef = Some ?b2, headerRef = Some ?h1,
              wrapperRef = Some ?h1\<rparr>"
  let ?l3 = "\<lparr>innerWidth = 300, searchButtonRef = Some ?b3, headerRef = Some ?h3,
              wrapperRef = Some ?h3\<rparr>"
  have c: "\<not> isSearchBarOpen NavBar_initial" by (simp add: NavBar_initial_def)
  have n1: "naiveLeft 1000 ?b1 = 732" by (simp add: naiveLeft_def computedWidth_def)
  have n2: "naiveLeft 1000 ?b2 = - 198" by (simp add: naiveLeft_def computedWidth_def)
  have f: "\<lfloor>1000 * 0.44 :: real\<rfloor> = 440" "\<lfloor>300 * 0.44 :: real\<rfloor> = 132" by simp_all
  from overlay_clamping[OF c, of ?l1 ?b1 ?h1 ?h1]
  have r1: "map_option (\<lambda>st. (css_width st, css_left st))
        (searchBarStyle (handleSearchToggle ?l1 NavBar_initial)) = Some (440, 1000 - 440 - 12)"
    by (auto simp: n1 f spec_clamp_def)
  from overlay_clamping[OF c, of ?l2 ?b2 ?h1 ?h1]
  have r2: "map_option (\<lambda>st. (css_width st, css_left st))
        (searchBarStyle (handleSearchToggle ?l2 NavBar_initial)) = Some (440, 12)"
    by (auto simp: n2 f spec_clamp_def)
  from overlay_clamping[OF c, of ?l3 ?b3 ?h3 ?h3]
  have r3: "map_option (\<lambda>st. (css_width st, css_left st))
        (searchBarStyle (handleSearchToggle ?l3 NavBar_initial)) = Some (320, 12)"
    by (auto simp: f spec_clamp_def)
  show ?thesis using c n1 n2 r1 r2 r3 by simp
qed

text \<open>
  The claim as first stated fails for a narrow viewport: at width 300 with the
  trigger at left 250, width 20, the overlay is 320 wide, naive centering gives
  left 100 with left + width = 420 > 288, yet the returned left is 12, which is
  neither inside [12, -32] nor equal to the bound -32.
\<close>

theorem overlay_clamping_counterexample:
  "map_option css_left
     (searchBarStyle (handleSearchToggle
        \<lparr>innerWidth = 300,
         searchButtonRef = Some \<lparr>rect_left = 250, rect_top = 50, rect_width = 20, rect_bottom = 70\<rparr>,
         headerRef = Some \<lparr>rect_left = 0, rect_top = 35, rect_width = 300, rect_bottom = 95\<rparr>,
         wrapperRef = Some \<lparr>rect_left = 0, rect_top = 35, rect_width = 300, rect_bottom = 95\<rparr>\<rparr>
        NavBar_initial)) = Some 12
   \<and> map_option css_width
     (searchBarStyle (handleSearchToggle
        \<lparr>innerWidth = 300,
         searchButtonRef = Some \<lparr>rect_left = 250, rect_top = 50, rect_width = 20, rect_bottom = 70\<rparr>,
         headerRef = Some \<lparr>rect_left = 0, rect_top = 35, rect_width = 300, rect_bottom = 95\<rparr>,
         wrapperRef = Some \<lparr>rect_left = 0, rect_top = 35, rect_width = 300, rect_bottom = 95\<rparr>\<rparr>
        NavBar_initial)) = Some 320
   \<and> naiveLeft 300 \<lparr>rect_left = 250, rect_top = 50, rect_width = 20, rect_bottom = 70\<rparr> = 100
   \<and> (300 :: real) - 12 < 100 + 320
   \<and> \<not> ((12 :: real) \<le> 300 - 320 - 12)
   \<and> (12 :: real) \<noteq> 300 - 320 - 12
   \<and> spec_clamp 100 12 (300 - 320 - 12) = - 32"
  by (simp add: search_defs)

text \<open>
  Claim C4, as amended.  For viewport width 1440 and trigger rectangle with left
  700 and width 20, floor(1440 * 0.44) = 633, so the width is
  clamp(633, 320, 800) = 633; naive left is 700 + 10 - 316.5 = 393.5, inside the
  bounds [12, 1440 - 633 - 12 = 795], so the returned left is 393.5.
\<close>

theorem end_to_end_scenario:
  "\<lfloor>1440 * 0.44 :: real\<rfloor> = 633
   \<and> spec_clamp 633 320 800 = 633
   \<and> naiveLeft 1440 \<lparr>rect_left = 700, rect_top = t, rect_width = 20, rect_bottom = b\<rparr> = 700 + 10 - 316.5
   \<and> (1440 :: real) - 633 - 12 = 795
   \<and> (12 :: real) \<le> 393.5 \<and> (393.5 :: real) \<le> 795
   \<and> searchBarStyle (handleSearchToggle
        \<lparr>innerWidth = 1440,
         searchButtonRef = Some \<lparr>rect_left = 700, rect_top = t, rect_width = 20, rect_bottom = b\<rparr>,
         headerRef = Some hdrRect, wrapperRef = Some wrapRect\<rparr>
        NavBar_initial)
     = Some \<lparr>css_position = ''absolute'', css_left = 393.5,
             css_top = max 0 (rect_bottom hdrRect - rect_top wrapRect + 8),
             css_width = 633, css_zIndex = 72\<rparr>"
  by (simp add: search_defs)

text \<open>
  The scenario as first stated (width 634, left 393) fails at its own input: the
  floor of 1440 * 0.44 = 633.6 is 633, not 634, and the left is 393.5.
\<close>

theorem end_to_end_scenario_counterexample:
  "\<not> (map_option css_width
        (searchBarStyle (handleSearchToggle
           \<lparr>innerWidth = 1440,
            searchButtonRef = Some \<lparr>rect_left = 700, rect_top = 50, rect_width = 20, rect_bottom = 70\<rparr>,
            headerRef = Some \<lparr>rect_left = 0, rect_top = 35, rect_width = 1440, rect_bottom = 95\<rparr>,
            wrapperRef = Some \<lparr>rect_left = 0, rect_top = 35, rect_width = 1440, rect_bottom = 95\<rparr>\<rparr>
           NavBar_initial)) = Some 634)
   \<and> \<not> (map_option css_left
        (searchBarStyle (handleSearchToggle
           \<lparr>innerWidth = 1440,
            searchButtonRef = Some \<lparr>rect_left = 700, rect_top = 50, rect_width = 20, rect_bottom = 70\<rparr>,
            headerRef = Some \<lparr>rect_left = 0, rect_top = 35, rect_width = 1440, rect_bottom = 95\<rparr>,
            wrapperRef = Some \<lparr>rect_left = 0, rect_top = 35, rect_width = 1440, rect_bottom = 95\<rparr>\<rparr>
           NavBar_initial)) = Some 393)"
  by (simp add: search_defs)

section \<open>Search overlay: fallback and exclusion with the mega menu\<close>

text \<open>
  Claim C9, as amended.  Opening the search bar never fails and always opens it.
  When the trigger button, the header or the wrapper is not mounted (its ref is
  null), no style is stored and the search bar is rendered with left, top and
  width undefined.  When all three are mounted, whatever their size, the
  computed placement is stored: only a missing element counts as unavailable.
  The handler is a total function: it reads no property of a missing element,
  so nothing is raised.
\<close>

theorem search_fallback:
  assumes "\<not> isSearchBarOpen s"
  shows "isSearchBarOpen (handleSearchToggle lay s)
       \<and> (searchButtonRef lay = None \<or> headerRef lay = None \<or> wrapperRef lay = None \<longrightarrow>
            searchBarStyle (handleSearchToggle lay s) = None
            \<and> renderSearchBar (handleSearchToggle lay s)
                = Some \<lparr>sb_left = None, sb_top = None, sb_width = None, sb_zIndex = 72\<rparr>)
       \<and> (\<forall>btnRect hdrRect wrapRect.
             searchButtonRef lay = Some btnRect \<and> headerRef lay = Some hdrRect
             \<and> wrapperRef lay = Some wrapRect \<longrightarrow>
             searchBarStyle (handleSearchToggle lay s)
               = Some (searchBarPlacement (innerWidth lay) btnRect hdrRect wrapRect))"
  using assms
  by (auto simp: handleSearchToggle_def Let_def renderSearchBar_def SearchBar_def
      split: option.splits)

theorem search_fallback_witness:
  "\<not> isSearchBarOpen NavBar_initial
   \<and> headerRef \<lparr>innerWidth = 1440,
        searchButtonRef = Some \<lparr>rect_left = 700, rect_top = 50, rect_width = 20, rect_bottom = 70\<rparr>,
        headerRef = None,
        wrapperRef = Some \<lparr>rect_left = 0, rect_top = 35, rect_width = 1440, rect_bottom = 95\<rparr>\<rparr> = None
   \<and> renderSearchBar (handleSearchToggle
        \<lparr>innerWidth = 1440,
         searchButtonRef = Some \<lparr>rect_left = 700, rect_top = 50, rect_width = 20, rect_bottom = 70\<rparr>,
         headerRef = None,
         wrapperRef = Some \<lparr>rect_left = 0, rect_top = 35, rect_width = 1440, rect_bottom = 95\<rparr>\<rparr>
        NavBar_initial)
      = Some \<lparr>sb_left = None, sb_top = None, sb_width = None, sb_zIndex = 72\<rparr>
   \<and> searchBarStyle (handleSearchToggle
        \<lparr>innerWidth = 1440,
         searchButtonRef = Some \<lparr>rect_left = 700, rect_top = 50, rect_width = 20, rect_bottom = 70\<rparr>,
         headerRef = Some \<lparr>rect_left = 0, rect_top = 35, rect_width = 1440, rect_bottom = 95\<rparr>,
         wrapperRef = Some \<lparr>rect_left = 0, rect_top = 35, rect_width = 1440, rect_bottom = 95\<rparr>\<rparr>
        NavBar_initial)
      = Some \<lparr>css_position = ''absolute'', css_left = 393.5, css_top = 68, css_width = 633,
              css_zIndex = 72\<rparr>"
proof -
  let ?btn = "\<lparr>rect_left = 700, rect_top = 50, rect_width = 20, rect_bottom = 70 :: real\<rparr>"
  let ?hdr = "\<lparr>rect_left = 0, rect_top = 35, rect_width = 1440, rect_bottom = 95 :: real\<rparr>"
  let ?missing = "\<lparr>innerWidth = 1440, searchButtonRef = Some ?btn, headerRef = None,
                   wrapperRef = Some ?hdr\<rparr>"
  let ?mounted = "\<lparr>innerWidth = 1440, searchButtonRef = Some ?btn, headerRef = Some ?hdr,
                   wrapperRef = Some ?hdr\<rparr>"
  have c: "\<not> isSearchBarOpen NavBar_initial" by (simp add: NavBar_initial_def)
  have p: "searchBarPlacement 1440 ?btn ?hdr ?hdr
      = \<lparr>css_position = ''absolute'', css_left = 393.5, css_top = 68, css_width = 633,
         css_zIndex = 72\<rparr>"
    by (simp add: searchBarPlacement_def naiveLeft_def computedWidth_def Let_def)
  have "renderSearchBar (handleSearchToggle ?missing NavBar_initial)
      = Some \<lparr>sb_left = None, sb_top = None, sb_width = None, sb_zIndex = 72\<rparr>"
    using search_fallback[OF c, of ?missing] by simp
  moreover have "searchBarStyle (handleSearchToggle ?mounted NavBar_initial)
      = Some (searchBarPlacement 1440 ?btn ?hdr ?hdr)"
    using search_fallback[OF c, of ?mounted] by simp
  ultimately show ?thesis using c unfolding p by simp
qed

text \<open>
  The claim as first stated counts an element of zero size as unavailable.  The
  handler does not: with all three elements mounted and every rectangle zero, at
  viewport width 1440, it stores an explicit placement (left 12, top 8, width
  633), and the search bar is rendered with these instead of undefined values.
\<close>

theorem search_fallback_counterexample:
  "renderSearchBar (handleSearchToggle
     \<lparr>innerWidth = 1440,
      searchButtonRef = Some \<lparr>rect_left = 0, rect_top = 0, rect_width = 0, rect_bottom = 0\<rparr>,
      headerRef = Some \<lparr>rect_left = 0, rect_top = 0, rect_width = 0, rect_bottom = 0\<rparr>,
      wrapperRef = Some \<lparr>rect_left = 0, rect_top = 0, rect_width = 0, rect_bottom = 0\<rparr>\<rparr>
     NavBar_initial)
   = Some \<lparr>sb_left = Some 12, sb_top = Some 8, sb_width = Some 633, sb_zIndex = 72\<rparr>
   \<and> renderSearchBar (handleSearchToggle
     \<lparr>innerWidth = 1440,
      searchButtonRef = Some \<lparr>rect_left = 0, rect_top = 0, rect_width = 0, rect_bottom = 0\<rparr>,
      headerRef = Some \<lparr>rect_left = 0, rect_top = 0, rect_width = 0, rect_bottom = 0\<rparr>,
      wrapperRef = Some \<lparr>rect_left = 0, rect_top = 0, rect_width = 0, rect_bottom = 0\<rparr>\<rparr>
     NavBar_initial)
   \<noteq> Some \<lparr>sb_left = None, sb_top = None, sb_width = None, sb_zIndex = 72\<rparr>"
  by (simp add: search_defs renderSearchBar_def SearchBar_def)

lemma render_exclusive:
  "\<not> (renderSearchBar s \<noteq> None \<and> renderDesktopMegaMenu s \<noteq> None)"
  by (simp add: renderSearchBar_def renderDesktopMegaMenu_def split: option.splits)

lemma search_open_hides_panel: "isSearchBarOpen s \<Longrightarrow> renderDesktopMegaMenu s = None"
  by (simp add: renderDesktopMegaMenu_def split: option.splits)

text \<open>
  Claim C10.  In every state reached from the initial one the search bar and the
  mega menu panel are not both rendered.  In any state, a rendered panel means
  that an active menu is set and the search bar is closed; opening the search
  bar sets the active menu to none in the same step; and while the search bar is
  open, the pointer entering a navigation button keeps the search bar open and
  the panel unrendered, even when it sets the active menu.
\<close>

theorem panel_search_exclusive:
  "\<not> (renderSearchBar (run es NavBar_initial) \<noteq> None
      \<and> renderDesktopMegaMenu (run es NavBar_initial) \<noteq> None)
   \<and> (renderDesktopMegaMenu s \<noteq> None \<longrightarrow> activeDesktopMenu s \<noteq> None \<and> \<not> isSearchBarOpen s)
   \<and> (\<not> isSearchBarOpen s \<longrightarrow>
        isSearchBarOpen (handle (SearchClick lay) s)
        \<and> activeDesktopMenu (handle (SearchClick lay) s) = None)
   \<and> (isSearchBarOpen s \<longrightarrow>
        isSearchBarOpen (handle (NavItemMouseEnter item) s)
        \<and> renderDesktopMegaMenu (handle (NavItemMouseEnter item) s) = None
        \<and> (hasMegaMenu item \<longrightarrow>
             activeDesktopMenu (handle (NavItemMouseEnter item) s) = Some (nav_id item)))"
proof -
  have 1: "\<not> (renderSearchBar (run es NavBar_initial) \<noteq> None
      \<and> renderDesktopMegaMenu (run es NavBar_initial) \<noteq> None)"
    by (rule render_exclusive)
  have 2: "renderDesktopMegaMenu s \<noteq> None \<longrightarrow> activeDesktopMenu s \<noteq> None \<and> \<not> isSearchBarOpen s"
    by (auto simp: renderDesktopMegaMenu_def currentMegaItem_def split: option.splits if_splits)
  have 3: "\<not> isSearchBarOpen s \<longrightarrow>
        isSearchBarOpen (handle (SearchClick lay) s)
        \<and> activeDesktopMenu (handle (SearchClick lay) s) = None"
    by (auto simp: handleSearchToggle_def Let_def split: option.splits)
  have o: "isSearchBarOpen (handle (NavItemMouseEnter item) s) = isSearchBarOpen s"
    by (simp add: handleDesktopItemHover_def clearMegaMenuCloseTimeout_def
        window_clearTimeout_def split: option.splits)
  have 4: "isSearchBarOpen s \<longrightarrow>
        isSearchBarOpen (handle (NavItemMouseEnter item) s)
        \<and> renderDesktopMegaMenu (handle (NavItemMouseEnter item) s) = None
        \<and> (hasMegaMenu item \<longrightarrow>
             activeDesktopMenu (handle (NavItemMouseEnter item) s) = Some (nav_id item))"
  proof
    assume a: "isSearchBarOpen s"
    then have b: "isSearchBarOpen (handle (NavItemMouseEnter item) s)" by (simp only: o)
    then have "renderDesktopMegaMenu (handle (NavItemMouseEnter item) s) = None"
      by (rule search_open_hides_panel)
    moreover have "hasMegaMenu item \<longrightarrow>
             activeDesktopMenu (handle (NavItemMouseEnter item) s) = Some (nav_id item)"
      by (simp add: handleDesktopItemHover_def)
    ultimately show "isSearchBarOpen (handle (NavItemMouseEnter item) s)
        \<and> renderDesktopMegaMenu (handle (NavItemMouseEnter item) s) = None
        \<and> (hasMegaMenu item \<longrightarrow>
             activeDesktopMenu (handle (NavItemMouseEnter item) s) = Some (nav_id item))"
      using b by simp
  qed
  from 1 2 3 4 show ?thesis by (intro conjI)
qed


theorem panel_search_exclusive_witness:
  "renderDesktopMegaMenu (run [NavItemMouseEnter (NAV_ITEMS ! 0)] NavBar_initial) = Some (NAV_ITEMS ! 0)
   \<and> activeDesktopMenu (run [NavItemMouseEnter (NAV_ITEMS ! 0)] NavBar_initial) = Some Men
   \<and> isSearchBarOpen (run [NavItemMouseEnter (NAV_ITEMS ! 0)] NavBar_initial) = False
   \<and> isSearchBarOpen
        (run [NavItemMouseEnter (NAV_ITEMS ! 0),
              SearchClick \<lparr>innerWidth = 1440, searchButtonRef = None, headerRef = None,
                           wrapperRef = None\<rparr>] NavBar_initial)
   \<and> activeDesktopMenu
        (run [NavItemMouseEnter (NAV_ITEMS ! 0),
              SearchClick \<lparr>innerWidth = 1440, searchButtonRef = None, headerRef = None,
                           wrapperRef = None\<rparr>] NavBar_initial) = None
   \<and> hasMegaMenu (NAV_ITEMS ! 1)
   \<and> activeDesktopMenu
        (run [NavItemMouseEnter (NAV_ITEMS ! 0),
              SearchClick \<lparr>innerWidth = 1440, searchButtonRef = None, headerRef = None,
                           wrapperRef = None\<rparr>,
              NavItemMouseEnter (NAV_ITEMS ! 1)] NavBar_initial) = Some Women
   \<and> renderDesktopMegaMenu
        (run [NavItemMouseEnter (NAV_ITEMS ! 0),
              SearchClick \<lparr>innerWidth = 1440, searchButtonRef = None, headerRef = None,
                           wrapperRef = None\<rparr>,
              NavItemMouseEnter (NAV_ITEMS ! 1)] NavBar_initial) = None
   \<and> renderSearchBar
        (run [NavItemMouseEnter (NAV_ITEMS ! 0),
              SearchClick \<lparr>innerWidth = 1440, searchButtonRef = None, headerRef = None,
                           wrapperRef = None\<rparr>,
              NavItemMouseEnter (NAV_ITEMS ! 1)] NavBar_initial)
       = Some \<lparr>sb_left = None, sb_top = None, sb_width = None, sb_zIndex = 72\<rparr>"
proof -
  let ?lay = "\<lparr>innerWidth = 1440, searchButtonRef = None, headerRef = None, wrapperRef = None\<rparr>"
  let ?s1 = "run [NavItemMouseEnter (NAV_ITEMS ! 0)] NavBar_initial"
  let ?s2 = "run [NavItemMouseEnter (NAV_ITEMS ! 0), SearchClick ?lay] NavBar_initial"
  have s1: "?s1 = NavBar_initial\<lparr>activeDesktopMenu := Some Men\<rparr>"
    by (simp add: run_def handleDesktopItemHover_def clearMegaMenuCloseTimeout_def
        NavBar_initial_def NAV_ITEMS_def)
  have s2: "?s2 = NavBar_initial\<lparr>isSearchBarOpen := True\<rparr>"
    by (simp add: run_def handleDesktopItemHover_def clearMegaMenuCloseTimeout_def
        handleSearchToggle_def NavBar_initial_def NAV_ITEMS_def)
  have r1: "renderDesktopMegaMenu ?s1 = Some (NAV_ITEMS ! 0)"
    unfolding s1
    by (simp add: renderDesktopMegaMenu_def currentMegaItem_def DesktopMegaMenu_def
        NavBar_initial_def NAV_ITEMS_def)
  have c1: "\<not> isSearchBarOpen ?s1" unfolding s1 by (simp add: NavBar_initial_def)
  have o2: "isSearchBarOpen ?s2" unfolding s2 by simp
  have step2: "?s2 = handle (SearchClick ?lay) ?s1" by (simp add: run_def)
  have step3: "run [NavItemMouseEnter (NAV_ITEMS ! 0), SearchClick ?lay,
                    NavItemMouseEnter (NAV_ITEMS ! 1)] NavBar_initial
               = handle (NavItemMouseEnter (NAV_ITEMS ! 1)) ?s2"
    by (simp add: run_def)
  have m: "hasMegaMenu (NAV_ITEMS ! 1)" "nav_id (NAV_ITEMS ! 1) = Women"
    by (simp_all add: NAV_ITEMS_def)
  have a1: "activeDesktopMenu ?s1 = Some Men" unfolding s1 by simp
  have sb: "renderSearchBar (handle (NavItemMouseEnter (NAV_ITEMS ! 1)) ?s2)
       = Some \<lparr>sb_left = None, sb_top = None, sb_width = None, sb_zIndex = 72\<rparr>"
    unfolding s2
    by (simp add: renderSearchBar_def SearchBar_def handleDesktopItemHover_def
        clearMegaMenuCloseTimeout_def NavBar_initial_def NAV_ITEMS_def)
  from panel_search_exclusive[of "[]" ?s1 ?lay "NAV_ITEMS ! 0"] r1 c1
  have p1: "isSearchBarOpen (handle (SearchClick ?lay) ?s1)
        \<and> activeDesktopMenu (handle (SearchClick ?lay) ?s1) = None"
    by blast
  from panel_search_exclusive[of "[]" ?s2 ?lay "NAV_ITEMS ! 1"] o2 m
  have p2: "renderDesktopMegaMenu (handle (NavItemMouseEnter (NAV_ITEMS ! 1)) ?s2) = None
        \<and> activeDesktopMenu (handle (NavItemMouseEnter (NAV_ITEMS ! 1)) ?s2) = Some Women"
    by simp
  show ?thesis
    unfolding step3 unfolding step2 using r1 a1 c1 p1 p2 m(1) sb unfolding step2 by blast
qed

section \<open>Product carousel row: proofs\<close>

text \<open>
  Claim C3.  With maxScroll = scrollWidth - clientWidth > 0, the progress computed
  at offset \<open>o\<close> is \<open>o / maxScroll * 100\<close>; it does not decrease when the offset
  grows within [0, maxScroll], it is 0 at offset 0 and 100 at offset maxScroll.
\<close>

theorem carousel_progress_monotone:
  assumes "0 < scrollWidth node - clientWidth node"
    and "0 \<le> o1" and "o1 \<le> o2" and "o2 \<le> scrollWidth node - clientWidth node"
  shows "scrollProgress (updateScrollState (Some (node\<lparr>scrollLeft := o1\<rparr>)) st)
           = o1 / (scrollWidth node - clientWidth node) * 100
       \<and> scrollProgress (updateScrollState (Some (node\<lparr>scrollLeft := o1\<rparr>)) st)
           \<le> scrollProgress (updateScrollState (Some (node\<lparr>scrollLeft := o2\<rparr>)) st)
       \<and> scrollProgress (updateScrollState (Some (node\<lparr>scrollLeft := 0\<rparr>)) st) = 0
       \<and> scrollProgress
            (updateScrollState (Some (node\<lparr>scrollLeft := scrollWidth node - clientWidth node\<rparr>)) st)
           = 100"
proof -
  define m where "m = scrollWidth node - clientWidth node"
  have m: "0 < m" using assms(1) by (simp add: m_def)
  have p: "scrollProgress (updateScrollState (Some (node\<lparr>scrollLeft := x\<rparr>)) st) = x / m * 100"
    for x using m by (simp add: updateScrollState_def Let_def m_def)
  have "o1 / m \<le> o2 / m" using assms(3) m by (simp add: divide_right_mono)
  then have "o1 / m * 100 \<le> o2 / m * 100" by (rule mult_right_mono) simp
  moreover have "m / m * 100 = 100" using m by simp
  ultimately show ?thesis unfolding m_def[symmetric] p by simp
qed

theorem carousel_progress_monotone_witness:
  "(0 :: real) < 1800 - 1200 \<and> (0 :: real) \<le> 150 \<and> (150 :: real) \<le> 300 \<and> (300 :: real) \<le> 1800 - 1200
   \<and> scrollProgress (updateScrollState
        (Some \<lparr>scrollLeft = 150, scrollWidth = 1800, clientWidth = 1200,
               firstElementChild = Some \<lparr>offsetWidth = 380\<rparr>\<rparr>) CarouselRow_initial) = 25
   \<and> scrollProgress (updateScrollState
        (Some \<lparr>scrollLeft = 300, scrollWidth = 1800, clientWidth = 1200,
               firstElementChild = Some \<lparr>offsetWidth = 380\<rparr>\<rparr>) CarouselRow_initial) = 50
   \<and> (25 :: real) \<le> 50
   \<and> scrollProgress (updateScrollState
        (Some \<lparr>scrollLeft = 0, scrollWidth = 1800, clientWidth = 1200,
               firstElementChild = Some \<lparr>offsetWidth = 380\<rparr>\<rparr>) CarouselRow_initial) = 0
   \<and> scrollProgress (updateScrollState
        (Some \<lparr>scrollLeft = 600, scrollWidth = 1800, clientWidth = 1200,
               firstElementChild = Some \<lparr>offsetWidth = 380\<rparr>\<rparr>) CarouselRow_initial) = 100"
proof -
  let ?node = "\<lparr>scrollLeft = 0, scrollWidth = 1800, clientWidth = 1200,
               firstElementChild = Some \<lparr>offsetWidth = 380 :: real\<rparr>\<rparr>"
  have h: "0 < scrollWidth ?node - clientWidth ?node" "(0 :: real) \<le> 150" "(150 :: real) \<le> 300"
    "300 \<le> scrollWidth ?node - clientWidth ?node"
    by simp_all
  have k: "(0 :: real) \<le> 300" "(300 :: real) \<le> 300" by simp_all
  show ?thesis
    using carousel_progress_monotone[OF h, of CarouselRow_initial]
      carousel_progress_monotone[OF h(1) k h(4), of CarouselRow_initial]
    by simp
qed

text \<open>
  Claim C8.  When the content fits in the viewport (scrollWidth <= clientWidth)
  and the offset is 0, the row computes canScrollPrev = false, canScrollNext =
  false and progress 100.  A track with no item and a track with a single item
  narrower than the viewport are such states.
\<close>

theorem carousel_degenerate:
  assumes "scrollWidth node \<le> clientWidth node" and "scrollLeft node = 0"
  shows "canScrollPrev (updateScrollState (Some node) st) = False
       \<and> canScrollNext (updateScrollState (Some node) st) = False
       \<and> scrollProgress (updateScrollState (Some node) st) = 100"
  using assms by (simp add: updateScrollState_def Let_def)

theorem carousel_degenerate_witness:
  "(1200 :: real) \<le> 1200
   \<and> updateScrollState
        (Some \<lparr>scrollLeft = 0, scrollWidth = 1200, clientWidth = 1200, firstElementChild = None\<rparr>)
        CarouselRow_initial
      = \<lparr>canScrollPrev = False, canScrollNext = False, scrollProgress = 100\<rparr>
   \<and> updateScrollState
        (Some \<lparr>scrollLeft = 0, scrollWidth = 1200, clientWidth = 1200,
               firstElementChild = Some \<lparr>offsetWidth = 380\<rparr>\<rparr>)
        CarouselRow_initial
      = \<lparr>canScrollPrev = False, canScrollNext = False, scrollProgress = 100\<rparr>"
proof -
  let ?empty = "\<lparr>scrollLeft = 0, scrollWidth = 1200, clientWidth = 1200,
                  firstElementChild = None :: HTMLElement option\<rparr>"
  let ?single = "\<lparr>scrollLeft = 0, scrollWidth = 1200, clientWidth = 1200,
                  firstElementChild = Some \<lparr>offsetWidth = 380 :: real\<rparr>\<rparr>"
  have e: "scrollWidth ?empty \<le> clientWidth ?empty" "scrollLeft ?empty = 0" by simp_all
  have s: "scrollWidth ?single \<le> clientWidth ?single" "scrollLeft ?single = 0" by simp_all
  have r: "r = \<lparr>canScrollPrev = canScrollPrev r, canScrollNext = canScrollNext r,
                scrollProgress = scrollProgress r\<rparr>" for r :: CarouselRow
    by simp
  show ?thesis
    using carousel_degenerate[OF e, of CarouselRow_initial]
      carousel_degenerate[OF s, of CarouselRow_initial]
    by (simp add: updateScrollState_def CarouselRow_initial_def)
qed




end
